theory Spec2Isabelle
  imports Main "HOL-Library.Char_ord" "HOL-Library.Sublist"
begin

section \<open>The data model of \<^verbatim>\<open>json_untruncate.py\<close>\<close>

text \<open>
  The two enumerations of the source. A Python string is modelled as a \<^typ>\<open>string\<close>,
  one \<^typ>\<open>char\<close> for each character of the text; the scanner only ever compares a
  character with ASCII characters.
\<close>

datatype ContextType =
    TOP_LEVEL
  | STRING
  | STRING_ESCAPED
  | STRING_UNICODE
  | NUMBER
  | NUMBER_NEEDS_DIGIT
  | NUMBER_NEEDS_EXPONENT
  | TRUE
  | FALSE
  | NULL
  | ARRAY_NEEDS_VALUE
  | ARRAY_NEEDS_COMMA
  | OBJECT_NEEDS_KEY
  | OBJECT_NEEDS_COLON
  | OBJECT_NEEDS_VALUE
  | OBJECT_NEEDS_COMMA

datatype RespawnReason = STRING_ESCAPE | COLLECTION_ITEM

text \<open>The only exception the core can raise is Python's \<^verbatim>\<open>IndexError\<close>.\<close>

datatype error = IndexError

text \<open>
  The local variables of \<^verbatim>\<open>untruncate_json\<close> that its closures share. The stack is
  a Python list: the top of the stack is its last element.
\<close>

record state =
  context_stack :: "ContextType list"
  position :: int
  respawn_position :: "int option"
  respawn_stack_length :: "nat option"
  respawn_reason :: "RespawnReason option"

definition init_state :: state where
  "init_state =
     \<lparr>context_stack = [TOP_LEVEL], position = 0, respawn_position = None,
      respawn_stack_length = None, respawn_reason = None\<rparr>"

definition bind_err :: "error + 'a \<Rightarrow> ('a \<Rightarrow> error + 'b) \<Rightarrow> error + 'b" where
  "bind_err m f = (case m of Inl e \<Rightarrow> Inl e | Inr x \<Rightarrow> f x)"

section \<open>Python's string and list primitives\<close>

text \<open>\<^verbatim>\<open>xs[i]\<close>: a negative index counts from the end, an index out of range raises.\<close>

definition py_index :: "'a list \<Rightarrow> int \<Rightarrow> error + 'a" where
  "py_index xs i =
     (if 0 \<le> i \<and> i < int (length xs) then Inr (xs ! nat i)
      else if i < 0 \<and> - int (length xs) \<le> i then Inr (xs ! nat (int (length xs) + i))
      else Inl IndexError)"

text \<open>\<^verbatim>\<open>xs[:n]\<close> and \<^verbatim>\<open>xs[n:]\<close>: a negative bound counts from the end, and bounds are clipped.\<close>

definition slice_to :: "'a list \<Rightarrow> int \<Rightarrow> 'a list" where
  "slice_to xs n = (if n < 0 then take (nat (int (length xs) + n)) xs else take (nat n) xs)"

definition slice_from :: "'a list \<Rightarrow> int \<Rightarrow> 'a list" where
  "slice_from xs n = (if n < 0 then drop (nat (int (length xs) + n)) xs else drop (nat n) xs)"

text \<open>\<^verbatim>\<open>s.rfind(c)\<close> for a one-character \<^verbatim>\<open>c\<close>: the highest index of \<^verbatim>\<open>c\<close>, or \<^verbatim>\<open>-1\<close>.\<close>

fun rfind :: "string \<Rightarrow> char \<Rightarrow> int" where
  "rfind [] c = - 1"
| "rfind (x # xs) c =
     (let r = rfind xs c in if 0 \<le> r then r + 1 else if x = c then 0 else - 1)"

text \<open>
  \<^verbatim>\<open>s.rfind(c, 0, end)\<close> searches \<^verbatim>\<open>s[0:end]\<close>; with the start at \<^verbatim>\<open>0\<close> the index found
  in the slice is the index in \<^verbatim>\<open>s\<close>.
\<close>

definition rfind_to :: "string \<Rightarrow> char \<Rightarrow> int \<Rightarrow> int" where
  "rfind_to s c e = rfind (slice_to s e) c"

definition is_whitespace :: "char \<Rightarrow> bool" where
  "is_whitespace char \<longleftrightarrow> char \<in> set [CHR 0x20, CHR 0x0D, CHR 0x0A, CHR 0x09]"

section \<open>The closures of \<^verbatim>\<open>untruncate_json\<close>\<close>

definition push :: "ContextType \<Rightarrow> state \<Rightarrow> state" where
  "push context s = s\<lparr>context_stack := context_stack s @ [context]\<rparr>"

text \<open>\<^verbatim>\<open>context_stack[-1] = context\<close> raises on an empty list.\<close>

definition replace :: "ContextType \<Rightarrow> state \<Rightarrow> error + state" where
  "replace context s =
     (if context_stack s = [] then Inl IndexError
      else Inr (s\<lparr>context_stack := butlast (context_stack s) @ [context]\<rparr>))"

definition set_respawn :: "RespawnReason \<Rightarrow> state \<Rightarrow> state" where
  "set_respawn reason s =
     (if respawn_position s = None
      then s\<lparr>respawn_position := Some (position s),
             respawn_stack_length := Some (length (context_stack s)),
             respawn_reason := Some reason\<rparr>
      else s)"

definition clear_respawn :: "RespawnReason \<Rightarrow> state \<Rightarrow> state" where
  "clear_respawn reason s =
     (if Some reason = respawn_reason s
      then s\<lparr>respawn_position := None, respawn_stack_length := None, respawn_reason := None\<rparr>
      else s)"

text \<open>\<^verbatim>\<open>context_stack.pop()\<close> raises on an empty list.\<close>

definition pop :: "state \<Rightarrow> error + state" where
  "pop s =
     (if context_stack s = [] then Inl IndexError
      else Inr (s\<lparr>context_stack := butlast (context_stack s)\<rparr>))"

definition dont_consume_character :: "state \<Rightarrow> state" where
  "dont_consume_character s = s\<lparr>position := position s - 1\<rparr>"

definition start_any :: "char \<Rightarrow> state \<Rightarrow> state" where
  "start_any char s =
     (if CHR ''0'' \<le> char \<and> char \<le> CHR ''9'' then push NUMBER s
      else if char = CHR 0x22 then push STRING s
      else if char = CHR ''-'' then push NUMBER_NEEDS_DIGIT s
      else if char = CHR ''t'' then push TRUE s
      else if char = CHR ''f'' then push FALSE s
      else if char = CHR ''n'' then push NULL s
      else if char = CHR ''['' then push ARRAY_NEEDS_VALUE s
      else if char = CHR ''{'' then push OBJECT_NEEDS_KEY s
      else s)"

section \<open>The scanning loop\<close>

text \<open>
  The body of \<^verbatim>\<open>for position in range(len(json))\<close>, run in a state whose \<open>position\<close> the
  loop has just assigned. \<open>CHR 0x22\<close> is the double quote and \<open>CHR 0x5C\<close> the backslash.
\<close>

definition loop_body :: "string \<Rightarrow> state \<Rightarrow> error + state" where
  "loop_body json s =
     bind_err (py_index json (position s)) (\<lambda>char.
     bind_err (py_index (context_stack s) (- 1)) (\<lambda>current_context.
       if current_context = TOP_LEVEL then Inr (start_any char s)
       else if current_context = STRING then
         (if char = CHR 0x22 then pop s
          else if char = CHR 0x5C then Inr (push STRING_ESCAPED (set_respawn STRING_ESCAPE s))
          else Inr s)
       else if current_context = STRING_ESCAPED then
         (if char = CHR ''u'' then Inr (push STRING_UNICODE s)
          else pop (clear_respawn STRING_ESCAPE s))
       else if current_context = STRING_UNICODE then
         (if position s - rfind_to json (CHR ''u'') (position s) = 4
          then pop (clear_respawn STRING_ESCAPE s)
          else Inr s)
       else if current_context = NUMBER then
         (if char = CHR ''.'' then replace NUMBER_NEEDS_DIGIT s
          else if char \<in> {CHR ''e'', CHR ''E''} then replace NUMBER_NEEDS_EXPONENT s
          else if \<not> (CHR ''0'' \<le> char \<and> char \<le> CHR ''9'') then pop (dont_consume_character s)
          else Inr s)
       else if current_context = NUMBER_NEEDS_DIGIT then replace NUMBER s
       else if current_context = NUMBER_NEEDS_EXPONENT then
         (if char \<in> {CHR ''+'', CHR ''-''} then replace NUMBER_NEEDS_DIGIT s
          else replace NUMBER s)
       else if current_context \<in> {TRUE, FALSE, NULL} then
         (if \<not> (CHR ''a'' \<le> char \<and> char \<le> CHR ''z'') then pop (dont_consume_character s)
          else Inr s)
       else if current_context = ARRAY_NEEDS_VALUE then
         (if char = CHR '']'' then pop s
          else if \<not> is_whitespace char then
            bind_err (replace ARRAY_NEEDS_COMMA (clear_respawn COLLECTION_ITEM s))
              (\<lambda>s. Inr (start_any char s))
          else Inr s)
       else if current_context = ARRAY_NEEDS_COMMA then
         (if char = CHR '']'' then pop s
          else if char = CHR '','' then replace ARRAY_NEEDS_VALUE (set_respawn COLLECTION_ITEM s)
          else Inr s)
       else if current_context = OBJECT_NEEDS_KEY then
         (if char = CHR ''}'' then pop s
          else if char = CHR 0x22 then
            bind_err (replace OBJECT_NEEDS_COLON (set_respawn COLLECTION_ITEM s))
              (\<lambda>s. Inr (push STRING s))
          else Inr s)
       else if current_context = OBJECT_NEEDS_COLON then
         (if char = CHR '':'' then replace OBJECT_NEEDS_VALUE s else Inr s)
       else if current_context = OBJECT_NEEDS_VALUE then
         (if \<not> is_whitespace char then
            bind_err (replace OBJECT_NEEDS_COMMA (clear_respawn COLLECTION_ITEM s))
              (\<lambda>s. Inr (start_any char s))
          else Inr s)
       else if current_context = OBJECT_NEEDS_COMMA then
         (if char = CHR ''}'' then pop s
          else if char = CHR '','' then replace OBJECT_NEEDS_KEY (set_respawn COLLECTION_ITEM s)
          else Inr s)
       else Inr s))"

text \<open>
  The \<^verbatim>\<open>for\<close> loop: each iteration assigns the next value of the range to \<open>position\<close>,
  whatever the previous iteration left there, and an exception ends the loop.
\<close>

fun for_loop :: "string \<Rightarrow> nat list \<Rightarrow> state \<Rightarrow> error + state" where
  "for_loop json [] s = Inr s"
| "for_loop json (i # is) s =
     bind_err (loop_body json (s\<lparr>position := int i\<rparr>)) (for_loop json is)"

section \<open>The completion pass\<close>

text \<open>\<^verbatim>\<open>finish_word\<close> appends a slice of the word to \<open>result\<close>; \<^verbatim>\<open>word[0]\<close> raises on an empty word.\<close>

definition finish_word :: "string \<Rightarrow> string \<Rightarrow> string list \<Rightarrow> error + string list" where
  "finish_word json word result =
     bind_err (py_index word 0) (\<lambda>w0.
       Inr (result @ [slice_from word (int (length word) - rfind json w0)]))"

definition finish_context :: "string \<Rightarrow> ContextType \<Rightarrow> string list \<Rightarrow> error + string list" where
  "finish_context json context result =
     (if context = STRING then Inr (result @ [[CHR 0x22]])
      else if context \<in> {NUMBER_NEEDS_DIGIT, NUMBER_NEEDS_EXPONENT} then Inr (result @ [''0''])
      else if context = TRUE then finish_word json ''true'' result
      else if context = FALSE then finish_word json ''false'' result
      else if context = NULL then finish_word json ''null'' result
      else if context \<in> {ARRAY_NEEDS_VALUE, ARRAY_NEEDS_COMMA} then Inr (result @ ['']''])
      else if context \<in> {OBJECT_NEEDS_KEY, OBJECT_NEEDS_COLON, OBJECT_NEEDS_VALUE,
                          OBJECT_NEEDS_COMMA} then Inr (result @ [''}''])
      else Inr result)"

fun finish_loop :: "string \<Rightarrow> ContextType list \<Rightarrow> string list \<Rightarrow> error + string list" where
  "finish_loop json [] result = Inr result"
| "finish_loop json (context # cs) result =
     bind_err (finish_context json context result) (finish_loop json cs)"

definition untruncate_json :: "string \<Rightarrow> error + string" where
  "untruncate_json json =
     bind_err (for_loop json [0..<length json] init_state) (\<lambda>s.
       let context_stack =
             (case respawn_stack_length s of
                Some n \<Rightarrow> take n (context_stack s)
              | None \<Rightarrow> context_stack s);
           result =
             [case respawn_position s of Some p \<Rightarrow> slice_to json p | None \<Rightarrow> json]
       in bind_err (finish_loop json (rev context_stack) result) (\<lambda>result.
            Inr (concat result)))"

section \<open>Notions used in the proofs\<close>

text \<open>
  None of the definitions below is part of the program: they state invariants of the scan,
  name the configurations it passes through, and describe the JSON texts the theorems
  speak about.
\<close>

subsection \<open>Invariants of the scanning loop\<close>

definition stack_ok :: "ContextType list \<Rightarrow> bool" where
  "stack_ok st \<longleftrightarrow> st \<noteq> [] \<and> hd st = TOP_LEVEL \<and> TOP_LEVEL \<notin> set (tl st)"

definition checkpoint_ok :: "state \<Rightarrow> bool" where
  "checkpoint_ok s \<longleftrightarrow>
     (respawn_position s = None \<and> respawn_stack_length s = None \<and> respawn_reason s = None) \<or>
     (\<exists>p n r. respawn_position s = Some p \<and> 0 \<le> p \<and> respawn_stack_length s = Some n \<and>
        respawn_reason s = Some r)"

definition state_ok :: "state \<Rightarrow> bool" where
  "state_ok s \<longleftrightarrow> stack_ok (context_stack s) \<and> checkpoint_ok s"

subsection \<open>Documents without numbers, literals and escapes\<close>







subsection \<open>Configurations and runs of the scanning loop\<close>

text \<open>
  A configuration is the stack with the three checkpoint variables; \<open>position\<close> is left
  out, since every iteration assigns it before reading it. \<open>scans json k n g g'\<close> says that
  the \<open>n\<close> iterations from index \<open>k\<close> lead from any state with configuration \<open>g\<close> to a state
  with configuration \<open>g'\<close>, without an exception. \<open>seg json k v\<close> says that the text
  \<open>v\<close> stands in \<open>json\<close> at index \<open>k\<close>.
\<close>

type_synonym checkpoint = "int option \<times> nat option \<times> RespawnReason option"

type_synonym config = "ContextType list \<times> checkpoint"

definition config :: "state \<Rightarrow> config" where
  "config s =
     (context_stack s, respawn_position s, respawn_stack_length s, respawn_reason s)"

definition no_cp :: checkpoint where
  "no_cp = (None, None, None)"

definition item_cp :: "nat \<Rightarrow> nat \<Rightarrow> checkpoint" where
  "item_cp q n = (Some (int q), Some n, Some COLLECTION_ITEM)"




definition next_ctx :: "ContextType \<Rightarrow> ContextType" where
  "next_ctx c =
     (if c = ARRAY_NEEDS_VALUE then ARRAY_NEEDS_COMMA
      else if c = OBJECT_NEEDS_VALUE then OBJECT_NEEDS_COMMA
      else c)"

definition startable :: "checkpoint \<Rightarrow> bool" where
  "startable cp \<longleftrightarrow> cp = no_cp \<or> (\<exists>q n. cp = item_cp q n)"




definition key_cp :: "nat \<Rightarrow> nat \<Rightarrow> checkpoint \<Rightarrow> checkpoint" where
  "key_cp k n cp = (if cp = no_cp then item_cp k n else cp)"

subsection \<open>The text the completion pass produces from a configuration\<close>

definition closer :: "string \<Rightarrow> ContextType \<Rightarrow> string" where
  "closer json c = (case finish_context json c [] of Inl e \<Rightarrow> [] | Inr r \<Rightarrow> concat r)"

definition closers :: "string \<Rightarrow> ContextType list \<Rightarrow> string" where
  "closers json cs = concat (map (closer json) cs)"

definition final_text :: "string \<Rightarrow> config \<Rightarrow> string" where
  "final_text json g =
     (case g of (st, rp, rl, rr) \<Rightarrow>
        (case rp of None \<Rightarrow> json | Some q \<Rightarrow> slice_to json q) @
        closers json (rev (case rl of None \<Rightarrow> st | Some n \<Rightarrow> take n st)))"

subsection \<open>Repairing a proper prefix of a value\<close>

text \<open>
  \<open>repairs_value d\<close>: when the text ends inside the value \<open>d\<close>, after a proper non-empty
  prefix \<open>p\<close> of its text that starts at index \<open>k\<close>, the final text is the text before
  index \<open>k\<close>, the text of a plain value in place of \<open>p\<close>, and the closing text of the
  contexts under the value.
\<close>

definition tail_text :: "string list \<Rightarrow> string" where
  "tail_text xs = concat (map (\<lambda>x. CHR '','' # x) xs)"



subsection \<open>JSON texts\<close>

text \<open>
  The grammar of RFC 8259: a JSON text is a value between optional whitespace; a value is
  a string, a number, one of the three literals, an array or an object.
\<close>

definition json_ws :: "string \<Rightarrow> bool" where
  "json_ws w \<longleftrightarrow> set w \<subseteq> {CHR 0x20, CHR 0x09, CHR 0x0A, CHR 0x0D}"







section \<open>The stack is never empty and the checkpoint variables move together\<close>

text \<open>
  The bottom of the stack is \<open>TOP_LEVEL\<close> and no other element is: a pop or a replace is
  only reached under a context other than \<open>TOP_LEVEL\<close>, so it never meets an empty stack.
  The three checkpoint variables are all \<open>None\<close> or all set.
\<close>

lemma bind_err_simps [simp]:
  "bind_err (Inl e) f = Inl e"
  "bind_err (Inr x) f = f x"
  by (simp_all add: bind_err_def)

lemma py_index_last: "xs \<noteq> [] \<Longrightarrow> py_index xs (- 1) = Inr (last xs)"
  by (cases xs rule: rev_cases) (simp_all add: py_index_def nat_add_distrib)

lemma py_index_nat: "i < length xs \<Longrightarrow> py_index xs (int i) = Inr (xs ! i)"
  by (simp add: py_index_def)

lemma stack_ok_snoc: "stack_ok st \<Longrightarrow> c \<noteq> TOP_LEVEL \<Longrightarrow> stack_ok (st @ [c])"
  by (cases st) (auto simp: stack_ok_def)

lemma stack_ok_butlast:
  "stack_ok st \<Longrightarrow> last st \<noteq> TOP_LEVEL \<Longrightarrow> stack_ok (butlast st)"
  by (cases st rule: rev_cases; cases "butlast st") (auto simp: stack_ok_def)

lemma state_ok_push: "state_ok s \<Longrightarrow> c \<noteq> TOP_LEVEL \<Longrightarrow> state_ok (push c s)"
  by (simp add: state_ok_def push_def stack_ok_snoc checkpoint_ok_def)

lemma state_ok_start_any: "state_ok s \<Longrightarrow> state_ok (start_any ch s)"
  by (simp add: start_any_def state_ok_push)

lemma state_ok_pop:
  "state_ok s \<Longrightarrow> last (context_stack s) \<noteq> TOP_LEVEL \<Longrightarrow>
   \<exists>s'. pop s = Inr s' \<and> state_ok s'"
  by (simp add: state_ok_def pop_def stack_ok_butlast checkpoint_ok_def) (simp add: stack_ok_def)

lemma state_ok_replace:
  "state_ok s \<Longrightarrow> last (context_stack s) \<noteq> TOP_LEVEL \<Longrightarrow> c \<noteq> TOP_LEVEL \<Longrightarrow>
   \<exists>s'. replace c s = Inr s' \<and> state_ok s'"
  by (simp add: state_ok_def replace_def stack_ok_butlast stack_ok_snoc checkpoint_ok_def)
     (simp add: stack_ok_def)

lemma state_ok_set_respawn:
  "state_ok s \<Longrightarrow> 0 \<le> position s \<Longrightarrow> state_ok (set_respawn r s)"
  by (auto simp: state_ok_def set_respawn_def checkpoint_ok_def)

lemma state_ok_clear_respawn: "state_ok s \<Longrightarrow> state_ok (clear_respawn r s)"
  by (auto simp: state_ok_def clear_respawn_def checkpoint_ok_def)

lemma state_ok_dont_consume: "state_ok s \<Longrightarrow> state_ok (dont_consume_character s)"
  by (auto simp: state_ok_def dont_consume_character_def checkpoint_ok_def)

lemma stack_simps [simp]:
  "context_stack (set_respawn r s) = context_stack s"
  "context_stack (clear_respawn r s) = context_stack s"
  "context_stack (dont_consume_character s) = context_stack s"
  by (simp_all add: set_respawn_def clear_respawn_def dont_consume_character_def)

lemma bind_ok:
  assumes "\<exists>s'. m = Inr s' \<and> state_ok s'"
    and "\<And>s'. state_ok s' \<Longrightarrow> \<exists>s''. f s' = Inr s'' \<and> state_ok s''"
  shows "\<exists>s''. bind_err m f = Inr s'' \<and> state_ok s''"
  using assms by auto

lemma loop_body_ok:
  assumes "state_ok s" and "position s = int i" and "i < length json"
  shows "\<exists>s'. loop_body json s = Inr s' \<and> state_ok s'"
proof -
  have ne: "context_stack s \<noteq> []"
    using assms(1) by (simp add: state_ok_def stack_ok_def)
  have pos: "0 \<le> position s"
    using assms(2) by simp
  note oks = state_ok_start_any state_ok_pop state_ok_replace state_ok_set_respawn
    state_ok_clear_respawn state_ok_dont_consume state_ok_push
  show ?thesis
  proof (cases "last (context_stack s)")
    case TOP_LEVEL
    then show ?thesis
      using assms ne by (simp add: loop_body_def py_index_last py_index_nat oks)
  next
    case STRING
    then show ?thesis
      using assms ne pos state_ok_pop [of s]
      by (simp add: loop_body_def py_index_last py_index_nat oks)
  next
    case STRING_ESCAPED
    then show ?thesis
      using assms ne state_ok_pop [of "clear_respawn STRING_ESCAPE s"]
      by (simp add: loop_body_def py_index_last py_index_nat oks)
  next
    case STRING_UNICODE
    then show ?thesis
      using assms ne state_ok_pop [of "clear_respawn STRING_ESCAPE s"]
      by (simp add: loop_body_def py_index_last py_index_nat oks)
  next
    case NUMBER
    then show ?thesis
      using assms ne state_ok_pop [of "dont_consume_character s"]
        state_ok_replace [of s NUMBER_NEEDS_DIGIT] state_ok_replace [of s NUMBER_NEEDS_EXPONENT]
      by (simp add: loop_body_def py_index_last py_index_nat oks)
  next
    case NUMBER_NEEDS_DIGIT
    then show ?thesis
      using assms ne state_ok_replace [of s NUMBER]
      by (simp add: loop_body_def py_index_last py_index_nat oks)
  next
    case NUMBER_NEEDS_EXPONENT
    then show ?thesis
      using assms ne state_ok_replace [of s NUMBER] state_ok_replace [of s NUMBER_NEEDS_DIGIT]
      by (simp add: loop_body_def py_index_last py_index_nat oks)
  next
    case TRUE
    then show ?thesis
      using assms ne state_ok_pop [of "dont_consume_character s"]
      by (simp add: loop_body_def py_index_last py_index_nat oks)
  next
    case FALSE
    then show ?thesis
      using assms ne state_ok_pop [of "dont_consume_character s"]
      by (simp add: loop_body_def py_index_last py_index_nat oks)
  next
    case NULL
    then show ?thesis
      using assms ne state_ok_pop [of "dont_consume_character s"]
      by (simp add: loop_body_def py_index_last py_index_nat oks)
  next
    case ARRAY_NEEDS_VALUE
    then show ?thesis
      using assms ne state_ok_pop [of s]
        bind_ok [OF state_ok_replace [of "clear_respawn COLLECTION_ITEM s" ARRAY_NEEDS_COMMA],
          of "\<lambda>s. Inr (start_any (json ! i) s)"]
      by (simp add: loop_body_def py_index_last py_index_nat oks)
  next
    case ARRAY_NEEDS_COMMA
    then show ?thesis
      using assms ne pos state_ok_pop [of s]
        state_ok_replace [of "set_respawn COLLECTION_ITEM s" ARRAY_NEEDS_VALUE]
      by (auto simp add: loop_body_def py_index_last py_index_nat oks)
  next
    case OBJECT_NEEDS_KEY
    then show ?thesis
      using assms ne pos state_ok_pop [of s]
        bind_ok [OF state_ok_replace [of "set_respawn COLLECTION_ITEM s" OBJECT_NEEDS_COLON],
          of "\<lambda>s. Inr (push STRING s)"]
      by (simp add: loop_body_def py_index_last py_index_nat oks)
  next
    case OBJECT_NEEDS_COLON
    then show ?thesis
      using assms ne state_ok_replace [of s OBJECT_NEEDS_VALUE]
      by (auto simp add: loop_body_def py_index_last py_index_nat oks)
  next
    case OBJECT_NEEDS_VALUE
    then show ?thesis
      using assms ne
        bind_ok [OF state_ok_replace [of "clear_respawn COLLECTION_ITEM s" OBJECT_NEEDS_COMMA],
          of "\<lambda>s. Inr (start_any (json ! i) s)"]
      by (simp add: loop_body_def py_index_last py_index_nat oks)
  next
    case OBJECT_NEEDS_COMMA
    then show ?thesis
      using assms ne pos state_ok_pop [of s]
        state_ok_replace [of "set_respawn COLLECTION_ITEM s" OBJECT_NEEDS_KEY]
      by (auto simp add: loop_body_def py_index_last py_index_nat oks)
  qed
qed

lemma state_ok_position [simp]: "state_ok (s\<lparr>position := p\<rparr>) = state_ok s"
  by (simp add: state_ok_def checkpoint_ok_def)

lemma for_loop_ok:
  "state_ok s \<Longrightarrow> \<forall>i\<in>set is. i < length json \<Longrightarrow>
   \<exists>s'. for_loop json is s = Inr s' \<and> state_ok s'"
proof (induction "is" arbitrary: s)
  case Nil
  then show ?case by simp
next
  case (Cons i "is")
  from Cons.prems obtain s1 where s1: "loop_body json (s\<lparr>position := int i\<rparr>) = Inr s1" "state_ok s1"
    using loop_body_ok [of "s\<lparr>position := int i\<rparr>" i json] by auto
  with Cons.IH [of s1] Cons.prems(2) show ?case by simp
qed

lemma state_ok_init: "state_ok init_state"
  by (simp add: state_ok_def init_state_def stack_ok_def checkpoint_ok_def)

lemma scan_ok: "\<exists>s. for_loop json [0..<length json] init_state = Inr s \<and> state_ok s"
  using for_loop_ok [OF state_ok_init, of "[0..<length json]" json] by simp

section \<open>The completion pass only appends closing text\<close>

lemma finish_context_shape:
  "\<exists>fs. finish_context json c result = Inr (result @ fs) \<and>
     (\<forall>f\<in>set fs. f \<in> {[CHR 0x22], ''0'', '']'', ''}''} \<or>
        suffix f ''true'' \<or> suffix f ''false'' \<or> suffix f ''null'')"
  by (cases c)
     (simp_all add: finish_context_def finish_word_def py_index_def slice_from_def suffix_drop)

lemma finish_loop_shape:
  "\<exists>fs. finish_loop json cs result = Inr (result @ fs) \<and>
     (\<forall>f\<in>set fs. f \<in> {[CHR 0x22], ''0'', '']'', ''}''} \<or>
        suffix f ''true'' \<or> suffix f ''false'' \<or> suffix f ''null'')"
proof (induction cs arbitrary: result)
  case Nil
  show ?case by simp
next
  case (Cons c cs)
  obtain fs where fs: "finish_context json c result = Inr (result @ fs)"
    "\<forall>f\<in>set fs. f \<in> {[CHR 0x22], ''0'', '']'', ''}''} \<or>
        suffix f ''true'' \<or> suffix f ''false'' \<or> suffix f ''null''"
    using finish_context_shape by blast
  obtain gs where gs: "finish_loop json cs (result @ fs) = Inr ((result @ fs) @ gs)"
    "\<forall>f\<in>set gs. f \<in> {[CHR 0x22], ''0'', '']'', ''}''} \<or>
        suffix f ''true'' \<or> suffix f ''false'' \<or> suffix f ''null''"
    using Cons.IH by blast
  show ?case
  proof (intro exI conjI)
    show "finish_loop json (c # cs) result = Inr (result @ (fs @ gs))"
      using fs(1) gs(1) by simp
    show "\<forall>f\<in>set (fs @ gs). f \<in> {[CHR 0x22], ''0'', '']'', ''}''} \<or>
        suffix f ''true'' \<or> suffix f ''false'' \<or> suffix f ''null''"
      using fs(2) gs(2) by auto
  qed
qed

lemma slice_to_nonneg: "0 \<le> p \<Longrightarrow> slice_to xs p = take (nat p) xs"
  by (simp add: slice_to_def)

section \<open>Totality\<close>

text \<open>
  Claim C9. \<^verbatim>\<open>untruncate_json\<close> is total: for every input string it returns a string
  and never raises. Every index into the text and the stack, every \<^verbatim>\<open>pop\<close> and every
  \<^verbatim>\<open>replace\<close> is a possible \<open>IndexError\<close> of the model, and the loops are structural
  recursions over the range and over the stack, so the result \<open>Inr out\<close> says that the call
  returns normally.
\<close>

theorem untruncate_json_total: "\<exists>out. untruncate_json json = Inr out"
proof -
  obtain s where s: "for_loop json [0..<length json] init_state = Inr s"
    using scan_ok by blast
  define st where "st = (case respawn_stack_length s of
                Some n \<Rightarrow> take n (context_stack s)
              | None \<Rightarrow> context_stack s)"
  define r0 where "r0 = [case respawn_position s of Some p \<Rightarrow> slice_to json p | None \<Rightarrow> json]"
  obtain fs where "finish_loop json (rev st) r0 = Inr (r0 @ fs)"
    using finish_loop_shape by blast
  then show ?thesis
    using s by (simp add: untruncate_json_def st_def r0_def)
qed

section \<open>The shape of the output\<close>

text \<open>
  Claim C10. The output is a prefix of the input (all of it, or the input cut at the
  position of the pending checkpoint) followed only by closing fragments, each of them a
  double quote, \<^verbatim>\<open>0\<close>, \<^verbatim>\<open>]\<close>, \<^verbatim>\<open>}\<close> or a trailing slice of \<^verbatim>\<open>true\<close>,
  \<^verbatim>\<open>false\<close> or \<^verbatim>\<open>null\<close>.
\<close>

theorem untruncate_json_shape:
  "\<exists>s kept frags.
     for_loop json [0..<length json] init_state = Inr s \<and>
     kept = (case respawn_position s of None \<Rightarrow> json | Some p \<Rightarrow> take (nat p) json) \<and>
     prefix kept json \<and>
     untruncate_json json = Inr (kept @ concat frags) \<and>
     (\<forall>f\<in>set frags. f \<in> {[CHR 0x22], ''0'', '']'', ''}''} \<or>
        suffix f ''true'' \<or> suffix f ''false'' \<or> suffix f ''null'')"
proof -
  obtain s where s: "for_loop json [0..<length json] init_state = Inr s" and ok: "state_ok s"
    using scan_ok by blast
  define st where "st = (case respawn_stack_length s of
                Some n \<Rightarrow> take n (context_stack s)
              | None \<Rightarrow> context_stack s)"
  define kept where "kept = (case respawn_position s of None \<Rightarrow> json | Some p \<Rightarrow> take (nat p) json)"
  have kept: "(case respawn_position s of Some p \<Rightarrow> slice_to json p | None \<Rightarrow> json) = kept"
    using ok by (auto simp: kept_def state_ok_def checkpoint_ok_def slice_to_nonneg)
  obtain fs where fs: "finish_loop json (rev st) [kept] = Inr ([kept] @ fs)"
    "\<forall>f\<in>set fs. f \<in> {[CHR 0x22], ''0'', '']'', ''}''} \<or>
        suffix f ''true'' \<or> suffix f ''false'' \<or> suffix f ''null''"
    using finish_loop_shape by blast
  have "untruncate_json json = Inr (kept @ concat fs)"
    using s fs(1) kept by (simp add: untruncate_json_def st_def)
  moreover have "prefix kept json"
    by (simp add: kept_def take_is_prefix split: option.split)
  ultimately show ?thesis
    using s fs(2) kept_def by blast
qed

text \<open>The theorem at the input \<^verbatim>\<open>[1,2,\<close>, where the kept prefix is \<^verbatim>\<open>[1,2\<close>.\<close>

theorem untruncate_json_shape_witness:
  "\<exists>frags. untruncate_json ''[1,2,'' = Inr (''[1,2'' @ concat frags) \<and>
     list_all (\<lambda>f. f \<in> {[CHR 0x22], ''0'', '']'', ''}''} \<or>
        suffix f ''true'' \<or> suffix f ''false'' \<or> suffix f ''null'') frags"
proof -
  obtain s kept frags where h:
     "for_loop ''[1,2,'' [0..<length ''[1,2,''] init_state = Inr s"
     "kept = (case respawn_position s of None \<Rightarrow> ''[1,2,'' | Some p \<Rightarrow> take (nat p) ''[1,2,'')"
     "untruncate_json ''[1,2,'' = Inr (kept @ concat frags)"
     "\<forall>f\<in>set frags. f \<in> {[CHR 0x22], ''0'', '']'', ''}''} \<or>
        suffix f ''true'' \<or> suffix f ''false'' \<or> suffix f ''null''"
    using untruncate_json_shape [of "''[1,2,''"] by (elim exE conjE) (rule that)
  have s: "for_loop ''[1,2,'' [0..<length ''[1,2,''] init_state =
     Inr \<lparr>context_stack = [TOP_LEVEL, ARRAY_NEEDS_VALUE], position = 4,
          respawn_position = Some 4, respawn_stack_length = Some 2,
          respawn_reason = Some COLLECTION_ITEM\<rparr>"
    by code_simp
  have e: "\<lparr>context_stack = [TOP_LEVEL, ARRAY_NEEDS_VALUE], position = 4,
          respawn_position = Some 4, respawn_stack_length = Some 2,
          respawn_reason = Some COLLECTION_ITEM\<rparr> = s"
    using h(1) by (simp only: s sum.inject)
  have k: "kept = ''[1,2''"
    unfolding h(2) e [symmetric] by simp
  show ?thesis
  proof (intro exI conjI)
    show "untruncate_json ''[1,2,'' = Inr (''[1,2'' @ concat frags)"
      using h(3) unfolding k .
    show "list_all (\<lambda>f. f \<in> {[CHR 0x22], ''0'', '']'', ''}''} \<or>
        suffix f ''true'' \<or> suffix f ''false'' \<or> suffix f ''null'') frags"
      unfolding list_all_iff by (rule h(4))
  qed
qed

section \<open>The checkpoint\<close>

lemma run_prefix_ok:
  "k \<le> length json \<Longrightarrow> \<exists>s. for_loop json [0..<k] init_state = Inr s \<and> state_ok s"
  using for_loop_ok [OF state_ok_init, of "[0..<k]" json] by simp

text \<open>
  Claim C8. At most one checkpoint is pending: \<^verbatim>\<open>set_respawn\<close> in a state with a pending
  checkpoint changes nothing, \<^verbatim>\<open>clear_respawn\<close> discards the pending checkpoint when its
  reason is the one supplied and changes nothing otherwise, and after any number of
  iterations of the scanning loop the three checkpoint variables are all unset or all set.
\<close>

theorem single_checkpoint:
  "(respawn_position s \<noteq> None \<longrightarrow> set_respawn r s = s) \<and>
   (respawn_reason s = Some r \<longrightarrow>
      respawn_position (clear_respawn r s) = None \<and>
      respawn_stack_length (clear_respawn r s) = None \<and>
      respawn_reason (clear_respawn r s) = None) \<and>
   (respawn_reason s \<noteq> Some r \<longrightarrow> clear_respawn r s = s) \<and>
   (k \<le> length json \<longrightarrow>
      (\<exists>s'. for_loop json [0..<k] init_state = Inr s' \<and>
         ((respawn_position s' = None \<and> respawn_stack_length s' = None \<and>
           respawn_reason s' = None) \<or>
          (\<exists>p n r'. respawn_position s' = Some p \<and> respawn_stack_length s' = Some n \<and>
             respawn_reason s' = Some r'))))"
proof (intro conjI impI)
  assume "k \<le> length json"
  then obtain s' where "for_loop json [0..<k] init_state = Inr s'" "state_ok s'"
    using run_prefix_ok by blast
  then show "\<exists>s'. for_loop json [0..<k] init_state = Inr s' \<and>
         ((respawn_position s' = None \<and> respawn_stack_length s' = None \<and>
           respawn_reason s' = None) \<or>
          (\<exists>p n r'. respawn_position s' = Some p \<and> respawn_stack_length s' = Some n \<and>
             respawn_reason s' = Some r'))"
    unfolding state_ok_def checkpoint_ok_def by blast
qed (auto simp: set_respawn_def clear_respawn_def)

text \<open>
  The theorem at a state with a pending \<open>COLLECTION_ITEM\<close> checkpoint, and at the run on
  \<^verbatim>\<open>[[],\<close>, which ends with a checkpoint pending.
\<close>

theorem single_checkpoint_witness:
  "set_respawn STRING_ESCAPE
     \<lparr>context_stack = [TOP_LEVEL, ARRAY_NEEDS_VALUE], position = 5,
      respawn_position = Some 3, respawn_stack_length = Some 2,
      respawn_reason = Some COLLECTION_ITEM\<rparr> =
     \<lparr>context_stack = [TOP_LEVEL, ARRAY_NEEDS_VALUE], position = 5,
      respawn_position = Some 3, respawn_stack_length = Some 2,
      respawn_reason = Some COLLECTION_ITEM\<rparr> \<and>
   respawn_position (clear_respawn COLLECTION_ITEM
     \<lparr>context_stack = [TOP_LEVEL, ARRAY_NEEDS_VALUE], position = 5,
      respawn_position = Some 3, respawn_stack_length = Some 2,
      respawn_reason = Some COLLECTION_ITEM\<rparr>) = None \<and>
   clear_respawn STRING_ESCAPE
     \<lparr>context_stack = [TOP_LEVEL, ARRAY_NEEDS_VALUE], position = 5,
      respawn_position = Some 3, respawn_stack_length = Some 2,
      respawn_reason = Some COLLECTION_ITEM\<rparr> =
     \<lparr>context_stack = [TOP_LEVEL, ARRAY_NEEDS_VALUE], position = 5,
      respawn_position = Some 3, respawn_stack_length = Some 2,
      respawn_reason = Some COLLECTION_ITEM\<rparr> \<and>
   (\<exists>s'. for_loop ''[[],'' [0..<4] init_state = Inr s' \<and>
      respawn_position s' \<noteq> None \<and> respawn_stack_length s' \<noteq> None \<and>
      respawn_reason s' \<noteq> None)"
proof -
  define s where "s = \<lparr>context_stack = [TOP_LEVEL, ARRAY_NEEDS_VALUE], position = 5,
      respawn_position = Some 3, respawn_stack_length = Some (2::nat),
      respawn_reason = Some COLLECTION_ITEM\<rparr>"
  have a: "respawn_position s \<noteq> None" "respawn_reason s = Some COLLECTION_ITEM"
    "respawn_reason s \<noteq> Some STRING_ESCAPE"
    by (simp_all add: s_def)
  have l: "(4::nat) \<le> length ''[[],''"
    by simp
  have r: "for_loop ''[[],'' [0..<4] init_state =
     Inr \<lparr>context_stack = [TOP_LEVEL, ARRAY_NEEDS_VALUE], position = 3,
          respawn_position = Some 3, respawn_stack_length = Some 2,
          respawn_reason = Some COLLECTION_ITEM\<rparr>"
    by code_simp
  have 1: "set_respawn STRING_ESCAPE s = s"
    using single_checkpoint [of s STRING_ESCAPE 4 "''[[],''"] a by simp
  have 2: "respawn_position (clear_respawn COLLECTION_ITEM s) = None"
    using single_checkpoint [of s COLLECTION_ITEM 4 "''[[],''"] a by simp
  have 3: "clear_respawn STRING_ESCAPE s = s"
    using single_checkpoint [of s STRING_ESCAPE 4 "''[[],''"] a by simp
  have 4: "\<exists>s'. for_loop ''[[],'' [0..<4] init_state = Inr s' \<and>
      respawn_position s' \<noteq> None \<and> respawn_stack_length s' \<noteq> None \<and>
      respawn_reason s' \<noteq> None"
    unfolding r by simp
  show ?thesis
    using 1 2 3 4 unfolding s_def by (intro conjI)
qed

section \<open>The examples of the specification\<close>

text \<open>
  Claim C7. \<^verbatim>\<open>untruncate_json('[1,2,')\<close> returns \<^verbatim>\<open>[1,2]\<close>: the scan ends with a
  \<open>COLLECTION_ITEM\<close> checkpoint pending at the position of the trailing comma, and the
  output is cut there before the array is closed.
\<close>

theorem trailing_comma_dropped:
  "for_loop ''[1,2,'' [0..<length ''[1,2,''] init_state =
     Inr \<lparr>context_stack = [TOP_LEVEL, ARRAY_NEEDS_VALUE], position = 4,
          respawn_position = Some 4, respawn_stack_length = Some 2,
          respawn_reason = Some COLLECTION_ITEM\<rparr> \<and>
   untruncate_json ''[1,2,'' = Inr ''[1,2]''"
  by code_simp

text \<open>
  Claim C6, as the code has it. \<^verbatim>\<open>untruncate_json\<close> never changes the text it keeps, so
  the minus sign stays: the input \<^verbatim>\<open>{"x":-\<close> does not become \<^verbatim>\<open>{"x":0}\<close>.
\<close>

theorem minus_completion_counterexample:
  \<open>untruncate_json ''{"x":-'' \<noteq> Inr ''{"x":0}''\<close>
  by code_simp

text \<open>
  Claim C6, amended. \<^verbatim>\<open>untruncate_json('{"x":-')\<close> returns \<^verbatim>\<open>{"x":-0}\<close> and
  \<^verbatim>\<open>untruncate_json('[1.')\<close> returns \<^verbatim>\<open>[1.0]\<close>: a trailing \<^verbatim>\<open>-\<close> or \<^verbatim>\<open>.\<close> is
  completed by appending the digit \<^verbatim>\<open>0\<close>.
\<close>

theorem numeric_completion:
  \<open>untruncate_json ''{"x":-'' = Inr ''{"x":-0}'' \<and> untruncate_json ''[1.'' = Inr ''[1.0]''\<close>
  by code_simp

section \<open>Where the code departs from the specification\<close>

text \<open>
  Claim C4 says that the character ending a number or a literal is dispatched again to the
  context under the popped one. \<^verbatim>\<open>dont_consume_character\<close> decrements \<open>position\<close>, but
  the \<^verbatim>\<open>for\<close> loop assigns the next value of the range to it: the iterations that
  follow are the same with and without the decrement, so the character is consumed.
  On \<^verbatim>\<open>[1]\<close> the bracket at index 2 pops \<open>NUMBER\<close> and leaves \<open>position = 1\<close>; the
  loop ends with \<open>ARRAY_NEEDS_COMMA\<close> still open, and the output has a second bracket.
\<close>

theorem pushback_does_not_redispatch:
  "for_loop json (i # is) (dont_consume_character s) = for_loop json (i # is) s \<and>
   for_loop ''[1]'' [0..<length ''[1]''] init_state =
     Inr \<lparr>context_stack = [TOP_LEVEL, ARRAY_NEEDS_COMMA], position = 1,
          respawn_position = None, respawn_stack_length = None, respawn_reason = None\<rparr> \<and>
   untruncate_json ''[1]'' = Inr ''[1]]''"
proof (intro conjI)
  show "for_loop json (i # is) (dont_consume_character s) = for_loop json (i # is) s"
    by (simp add: dont_consume_character_def)
  show "for_loop ''[1]'' [0..<length ''[1]''] init_state =
     Inr \<lparr>context_stack = [TOP_LEVEL, ARRAY_NEEDS_COMMA], position = 1,
          respawn_position = None, respawn_stack_length = None, respawn_reason = None\<rparr>"
    by code_simp
  show "untruncate_json ''[1]'' = Inr ''[1]]''"
    by code_simp
qed

text \<open>
  Claim C2 says that a valid document is returned unchanged. The empty text is, but the
  brace that ends the number in \<^verbatim>\<open>{"a":1}\<close> is consumed by the pop of \<open>NUMBER\<close>, the
  object stays open and a second brace is appended.
\<close>

theorem valid_object_gets_extra_brace:
  \<open>untruncate_json ''{"a":1}'' = Inr ''{"a":1}}'' \<and> untruncate_json '''' = Inr ''''\<close>
  by code_simp

text \<open>
  Claim C5 says that a truncated literal gets exactly its missing suffix.
  \<^verbatim>\<open>finish_word\<close> slices the word from \<^verbatim>\<open>len(word) - json.rfind(word[0])\<close>, which is the
  number of characters already written only when the literal starts at one particular
  index: \<^verbatim>\<open>tru\<close> gets nothing, \<^verbatim>\<open>{"a":t\<close> gets \<^verbatim>\<open>e\<close>, and \<^verbatim>\<open>{"a":tru\<close> gets the
  \<^verbatim>\<open>e\<close> it needs.
\<close>

theorem finish_word_wrong_slice:
  \<open>untruncate_json ''tru'' = Inr ''tru'' \<and>
   untruncate_json ''{"a":t'' = Inr ''{"a":te}'' \<and>
   untruncate_json ''{"a":tru'' = Inr ''{"a":true}''\<close>
  by code_simp

section \<open>Runs of the scanning loop compose\<close>





section \<open>Single iterations\<close>













section \<open>Scanning a complete value\<close>










lemma next_ctx_simps [simp]:
  "next_ctx TOP_LEVEL = TOP_LEVEL"
  "next_ctx ARRAY_NEEDS_VALUE = ARRAY_NEEDS_COMMA"
  "next_ctx OBJECT_NEEDS_VALUE = OBJECT_NEEDS_COMMA"
  by (simp_all add: next_ctx_def)

lemma startable_simps [simp]:
  "startable no_cp" "startable (item_cp q n)" "startable cp \<Longrightarrow> startable (key_cp k n cp)"
  by (auto simp: startable_def key_cp_def)






section \<open>The result in terms of the final configuration\<close>





lemma final_text_no_cp [simp]: "final_text json (st, no_cp) = json @ closers json (rev st)"
  by (simp add: final_text_def no_cp_def)

lemma final_text_item_cp [simp]:
  "final_text json (st, item_cp q n) = take q json @ closers json (rev (take n st))"
  by (simp add: final_text_def item_cp_def slice_to_def)

lemma closers_simps [simp]:
  "closers json [] = []"
  "closers json (c # cs) = closer json c @ closers json cs"
  "closers json (cs @ ds) = closers json cs @ closers json ds"
  by (simp_all add: closers_def)

lemma closer_simps [simp]:
  "closer json TOP_LEVEL = []"
  "closer json STRING = [CHR 0x22]"
  "closer json ARRAY_NEEDS_VALUE = '']''"
  "closer json ARRAY_NEEDS_COMMA = '']''"
  "closer json OBJECT_NEEDS_KEY = ''}''"
  "closer json OBJECT_NEEDS_COLON = ''}''"
  "closer json OBJECT_NEEDS_VALUE = ''}''"
  "closer json OBJECT_NEEDS_COMMA = ''}''"
  by (simp_all add: closer_def finish_context_def)





section \<open>Scanning a truncated value\<close>


lemma tail_text_simps [simp]:
  "tail_text [] = []"
  "tail_text (x # xs) = CHR '','' # x @ tail_text xs"
  by (simp_all add: tail_text_def)















section \<open>The text of a plain document is a JSON text\<close>

lemma json_ws_Nil [simp]: "json_ws []"
  by (simp add: json_ws_def)










section \<open>Well-formedness of the output\<close>




section \<open>Idempotence\<close>




end
